theory Spec2Isabelle
  imports Main "HOL-Library.Char_ord" "HOL-Library.List_Lexorder" "HOL-Library.Multiset"
begin

section \<open>JUnit XML report summariser (junit_parser.py)\<close>

text \<open>
  The program lists the \<^verbatim>\<open>*.xml\<close> files of one directory, reads three attributes of
  the suite element of each file and prints one CSV line per file. Everything the program
  observes of its environment is gathered in a record \<open>filesystem\<close>; everything
  written to the two streams is an \<open>event\<close> of a trace, in program order. A call that
  can raise returns a sum, \<open>Inl\<close> with the text of the exception or \<open>Inr\<close> with the value.
\<close>

subsection \<open>Data\<close>

text \<open>
  An element of \<^verbatim>\<open>xml.etree.ElementTree\<close>: its tag, its attribute dictionary and its
  child elements in document order.
\<close>

datatype element = Element (tag: string) (attrib: "string \<rightharpoonup> string") (children: "element list")

text \<open>
  A \<^verbatim>\<open>pathlib.Path\<close> on a POSIX system, as the list of the components of its string form
  (the string split at the separator). Two paths compare as these lists do, component by
  component, each component as a string; the order of lists and of characters is the
  lexicographic one of the library.
\<close>

type_synonym path = "string list"

fun join_sep :: "string list \<Rightarrow> string" where
  "join_sep [] = []"
| "join_sep [c] = c"
| "join_sep (c # d # ds) = c @ ''/'' @ join_sep (d # ds)"

definition str_path :: "path \<Rightarrow> string" where
  "str_path p = join_sep p"

text \<open>
  What the program sees of the file system: \<open>exists\<close> and \<open>is_dir\<close> of the directory
  argument, the paths that \<^verbatim>\<open>dir_path.glob('*.xml')\<close> yields (in the order the operating
  system lists them), \<open>is_file\<close> of each of them, and the outcome of
  \<^verbatim>\<open>ET.parse(xml_file).getroot()\<close>. Each of the five can raise: the three tests of
  \<^verbatim>\<open>pathlib\<close> answer \<^verbatim>\<open>False\<close> for a path that is missing, and raise any other
  \<^verbatim>\<open>OSError\<close> of the underlying \<^verbatim>\<open>stat\<close> (a name that is too long, a directory that may
  not be searched); the listing raises when the directory cannot be read; the parser raises
  on a file that cannot be opened or is not XML.
\<close>

record filesystem =
  path_exists :: "string \<Rightarrow> string + bool"
  is_dir :: "string \<Rightarrow> string + bool"
  glob_xml :: "string \<Rightarrow> string + path list"
  is_file :: "path \<Rightarrow> string + bool"
  ET_parse :: "path \<Rightarrow> string + element"

text \<open>The dictionary the extractor returns.\<close>

record suite_record =
  name :: string
  tests :: string
  time :: string

text \<open>
  One call of \<^verbatim>\<open>print\<close>: the line, without its newline, and the stream. \<open>Traceback e\<close>
  is what the interpreter writes to the error stream when an exception with text \<open>e\<close>
  leaves the program uncaught.
\<close>

datatype event = Stdout string | Stderr string | Traceback string

fun stdout_lines :: "event list \<Rightarrow> string list" where
  "stdout_lines [] = []"
| "stdout_lines (Stdout l # es) = l # stdout_lines es"
| "stdout_lines (Stderr l # es) = stdout_lines es"
| "stdout_lines (Traceback e # es) = stdout_lines es"

text \<open>The bytes on the output stream: every line followed by a newline.\<close>

definition stdout_text :: "event list \<Rightarrow> string" where
  "stdout_text es = concat (map (\<lambda>l. l @ [CHR 0x0A]) (stdout_lines es))"

subsection \<open>The library calls the extractor makes\<close>

text \<open>
  \<^verbatim>\<open>Element.find(match)\<close> with a plain tag name as \<open>match\<close>: the first child element
  with that tag, or \<^verbatim>\<open>None\<close>. Only the children of the element are visited.
\<close>

definition Element_find :: "element \<Rightarrow> string \<Rightarrow> element option" where
  "Element_find e t = find (\<lambda>c. tag c = t) (children e)"

text \<open>\<^verbatim>\<open>Element.get(key, default)\<close>.\<close>

definition Element_get :: "element \<Rightarrow> string \<Rightarrow> string \<Rightarrow> string" where
  "Element_get e k d = (case attrib e k of None \<Rightarrow> d | Some v \<Rightarrow> v)"

subsection \<open>parse_junit_xml\<close>

text \<open>
  The body of the \<^verbatim>\<open>try\<close> block: \<open>Inl\<close> is an exception raised inside it, with its
  text; \<open>Inr\<close> is the value returned.
\<close>

definition parse_junit_xml_try :: "filesystem \<Rightarrow> path \<Rightarrow> string + suite_record option" where
  "parse_junit_xml_try fs xml_file =
     (case ET_parse fs xml_file of
        Inl e \<Rightarrow> Inl e
      | Inr root \<Rightarrow>
          (case (if tag root = ''testsuite'' then Some root
                 else if tag root = ''testsuites'' then Element_find root ''testsuite''
                 else None) of
             None \<Rightarrow> Inr None
           | Some testsuite \<Rightarrow>
               Inr (Some \<lparr>name = Element_get testsuite ''name'' ''Unknown'',
                          tests = Element_get testsuite ''tests'' ''0'',
                          time = Element_get testsuite ''time'' ''0''\<rparr>)))"

text \<open>The function with its handler: the value returned and what was printed.\<close>

definition parse_junit_xml :: "filesystem \<Rightarrow> path \<Rightarrow> suite_record option \<times> event list" where
  "parse_junit_xml fs xml_file =
     (case parse_junit_xml_try fs xml_file of
        Inl e \<Rightarrow> (None, [Stderr (''Error parsing '' @ str_path xml_file @ '': '' @ e)])
      | Inr r \<Rightarrow> (r, []))"

subsection \<open>find_xml_files\<close>

text \<open>
  The \<^verbatim>\<open>for\<close> loop over the listing: the files kept, or the exception of the first
  \<open>is_file\<close> that raises.
\<close>

fun find_xml_files_loop :: "filesystem \<Rightarrow> path list \<Rightarrow> string + path list" where
  "find_xml_files_loop fs [] = Inr []"
| "find_xml_files_loop fs (file # rest) =
     (case is_file fs file of
        Inl e \<Rightarrow> Inl e
      | Inr b \<Rightarrow>
          (case find_xml_files_loop fs rest of
             Inl e \<Rightarrow> Inl e
           | Inr xml_files \<Rightarrow> Inr (if b then file # xml_files else xml_files)))"

text \<open>
  The function has no handler: an exception of \<open>exists\<close>, \<open>is_dir\<close>, the listing or
  \<open>is_file\<close> leaves it. The result is the list returned or the exception raised, and
  what was printed.
\<close>

definition find_xml_files :: "filesystem \<Rightarrow> string \<Rightarrow> (string + path list) \<times> event list" where
  "find_xml_files fs directory =
     (case path_exists fs directory of
        Inl e \<Rightarrow> (Inl e, [])
      | Inr ex \<Rightarrow>
          if \<not> ex then
            (Inr [], [Stderr (''Error: Directory '' @ [CHR 0x27] @ directory @ [CHR 0x27] @
                              '' does not exist'')])
          else
            (case is_dir fs directory of
               Inl e \<Rightarrow> (Inl e, [])
             | Inr dir \<Rightarrow>
                 if \<not> dir then
                   (Inr [], [Stderr (''Error: '' @ [CHR 0x27] @ directory @ [CHR 0x27] @
                                     '' is not a directory'')])
                 else
                   (case glob_xml fs directory of
                      Inl e \<Rightarrow> (Inl e, [])
                    | Inr listing \<Rightarrow> (find_xml_files_loop fs listing, []))))"

subsection \<open>main\<close>

definition csv_row :: "suite_record \<Rightarrow> string" where
  "csv_row data = name data @ '','' @ tests data @ '','' @ time data"

text \<open>The \<^verbatim>\<open>for\<close> loop of \<open>main\<close>, over the files already sorted.\<close>

fun main_loop :: "filesystem \<Rightarrow> path list \<Rightarrow> event list" where
  "main_loop fs [] = []"
| "main_loop fs (xml_file # rest) =
     (case parse_junit_xml fs xml_file of
        (data, tr) \<Rightarrow>
          tr @ (case data of None \<Rightarrow> [] | Some d \<Rightarrow> [Stdout (csv_row d)]) @ main_loop fs rest)"

text \<open>\<open>main\<close> from the test of \<open>xml_files\<close> on: the exit status and the trace.\<close>

definition main_report :: "filesystem \<Rightarrow> string \<Rightarrow> path list \<Rightarrow> nat \<times> event list" where
  "main_report fs directory xml_files =
     (if xml_files = [] then
        (1, [Stderr (''No XML files found in directory: '' @ directory)])
      else (0, Stdout ''TestSuite,Tests,Runtime'' # main_loop fs (sort xml_files)))"

text \<open>
  \<open>main\<close>: \<open>argv\<close> is \<^verbatim>\<open>sys.argv\<close>, the script's name first. The result is the exit
  status (\<open>Inr\<close>: 1 from \<^verbatim>\<open>sys.exit(1)\<close>, 0 when the function returns) or the exception
  that leaves \<open>main\<close> (\<open>Inl\<close>), and the trace so far. \<open>main\<close> has no handler either.
\<close>

definition main :: "filesystem \<Rightarrow> string list \<Rightarrow> (string + nat) \<times> event list" where
  "main fs argv =
     (if length argv \<noteq> 2 then
        (Inr 1, [Stderr ''Usage: python junit_parser.py <directory>''])
      else
        (let directory = argv ! 1 in
         case find_xml_files fs directory of
           (Inl e, tr) \<Rightarrow> (Inl e, tr)
         | (Inr xml_files, tr) \<Rightarrow>
             (case main_report fs directory xml_files of
                (status, tr') \<Rightarrow> (Inr status, tr @ tr'))))"

text \<open>
  The script run as a program: the exit status of the process and the trace of the whole
  run. An exception that leaves \<open>main\<close> is reported by the interpreter on the error
  stream, and the process ends with status 1.
\<close>

definition junit_parser :: "filesystem \<Rightarrow> string list \<Rightarrow> nat \<times> event list" where
  "junit_parser fs argv =
     (case main fs argv of
        (Inl e, tr) \<Rightarrow> (1, tr @ [Traceback e])
      | (Inr status, tr) \<Rightarrow> (status, tr))"


subsection \<open>Sample inputs\<close>

text \<open>
  A file system with four directories and one regular file. \<open>reports\<close> holds two
  well-formed reports, a file that is not XML and a subdirectory whose name ends in
  \<^verbatim>\<open>.xml\<close>; \<open>broken\<close> holds a file that is not XML and a well-formed document
  that is not a report; \<open>empty\<close> holds nothing; \<open>locked\<close> may be read but not searched,
  so that its one report is listed but cannot be examined. A path of more than 255
  characters is refused by the operating system.
\<close>

definition demo_fs :: filesystem where
  "demo_fs = \<lparr>
     path_exists = (\<lambda>d.
        if 255 < length d then Inl ''[Errno 36] File name too long''
        else Inr (d \<in> {''reports'', ''broken'', ''empty'', ''locked'', ''notes.txt''})),
     is_dir = (\<lambda>d.
        if 255 < length d then Inl ''[Errno 36] File name too long''
        else Inr (d \<in> {''reports'', ''broken'', ''empty'', ''locked''})),
     glob_xml = (\<lambda>d.
        if d = ''reports''
        then Inr [[''reports'', ''b.xml''], [''reports'', ''old.xml''],
                  [''reports'', ''bad.xml''], [''reports'', ''a.xml'']]
        else if d = ''broken''
        then Inr [[''broken'', ''page.xml''], [''broken'', ''bad.xml'']]
        else if d = ''locked''
        then Inr [[''locked'', ''a.xml'']]
        else Inr []),
     is_file = (\<lambda>p.
        if p = [''locked'', ''a.xml''] then Inl ''[Errno 13] Permission denied''
        else Inr (p \<noteq> [''reports'', ''old.xml''])),
     ET_parse = (\<lambda>p.
        if p = [''reports'', ''a.xml'']
        then Inr (Element ''testsuite''
               [''name'' \<mapsto> ''Foo'', ''tests'' \<mapsto> ''12'', ''time'' \<mapsto> ''3.4''] [])
        else if p = [''reports'', ''b.xml'']
        then Inr (Element ''testsuites'' Map.empty
               [Element ''testsuite''
                  [''name'' \<mapsto> ''Bar'', ''tests'' \<mapsto> ''5'', ''time'' \<mapsto> ''1.0''] []])
        else if p = [''broken'', ''page.xml'']
        then Inr (Element ''html'' Map.empty [Element ''body'' Map.empty []])
        else Inl ''syntax error: line 1, column 0'')\<rparr>"

text \<open>The same file system, its directories listed in another order.\<close>

definition demo_fs_relisted :: filesystem where
  "demo_fs_relisted = demo_fs\<lparr>glob_xml := (\<lambda>d.
        if d = ''reports''
        then Inr [[''reports'', ''a.xml''], [''reports'', ''b.xml''],
                  [''reports'', ''bad.xml''], [''reports'', ''old.xml'']]
        else if d = ''broken''
        then Inr [[''broken'', ''bad.xml''], [''broken'', ''page.xml'']]
        else if d = ''locked''
        then Inr [[''locked'', ''a.xml'']]
        else Inr [])\<rparr>"


text \<open>
  A report whose only \<open>testsuite\<close> element lies one level below a child of the root:
  \<^verbatim>\<open><testsuites><group><testsuite name="Deep" tests="2" time="0.5"/></group></testsuites>\<close>
\<close>

definition nested_suite :: element where
  "nested_suite =
     Element ''testsuite'' [''name'' \<mapsto> ''Deep'', ''tests'' \<mapsto> ''2'', ''time'' \<mapsto> ''0.5''] []"

definition nested_root :: element where
  "nested_root = Element ''testsuites'' Map.empty [Element ''group'' Map.empty [nested_suite]]"

definition nested_fs :: filesystem where
  "nested_fs = \<lparr>
     path_exists = (\<lambda>d. Inr (d = ''reports'')),
     is_dir = (\<lambda>d. Inr (d = ''reports'')),
     glob_xml = (\<lambda>d. Inr (if d = ''reports'' then [[''reports'', ''nested.xml'']] else [])),
     is_file = (\<lambda>p. Inr True),
     ET_parse = (\<lambda>p. if p = [''reports'', ''nested.xml''] then Inr nested_root
                      else Inl ''[Errno 2] No such file or directory'')\<rparr>"

subsection \<open>The search the specification describes\<close>

text \<open>
  The elements below an element, in document order: each child, followed by what lies
  below it, before the next child.
\<close>

fun iter_descendants :: "element \<Rightarrow> element list" where
  "iter_descendants (Element t a cs) = concat (map (\<lambda>c. c # iter_descendants c) cs)"

text \<open>
  The search as the specification words it: the first element with the given tag among
  the children and their descendants.
\<close>

definition spec_find_descendant :: "element \<Rightarrow> string \<Rightarrow> element option" where
  "spec_find_descendant e t = find (\<lambda>c. tag c = t) (iter_descendants e)"

subsection \<open>Auxiliary facts\<close>

lemma stdout_lines_append: "stdout_lines (xs @ ys) = stdout_lines xs @ stdout_lines ys"
  by (induction xs rule: stdout_lines.induct) simp_all

lemma find_first_match:
  "\<forall>c\<in>set pre. \<not> P c \<Longrightarrow> P x \<Longrightarrow> find P (pre @ x # post) = Some x"
  by (induction pre) simp_all

lemma find_no_match: "\<forall>c\<in>set xs. \<not> P c \<Longrightarrow> find P xs = None"
  by (induction xs) simp_all

lemma parse_junit_xml_error:
  "ET_parse fs p = Inl e \<Longrightarrow>
   parse_junit_xml fs p = (None, [Stderr (''Error parsing '' @ str_path p @ '': '' @ e)])"
  by (simp add: parse_junit_xml_def parse_junit_xml_try_def)

lemma parse_junit_xml_suite:
  assumes "ET_parse fs p = Inr root"
    and "tag root = ''testsuite'' \<and> ts = root \<or>
         tag root = ''testsuites'' \<and> Element_find root ''testsuite'' = Some ts"
  shows "parse_junit_xml fs p =
    (Some \<lparr>name = (case attrib ts ''name'' of None \<Rightarrow> ''Unknown'' | Some v \<Rightarrow> v),
           tests = (case attrib ts ''tests'' of None \<Rightarrow> ''0'' | Some v \<Rightarrow> v),
           time = (case attrib ts ''time'' of None \<Rightarrow> ''0'' | Some v \<Rightarrow> v)\<rparr>, [])"
  using assms
  by (auto simp add: parse_junit_xml_def parse_junit_xml_try_def Element_get_def)

lemma parse_junit_xml_no_suite:
  assumes "ET_parse fs p = Inr root"
    and "tag root \<noteq> ''testsuite''"
    and "tag root = ''testsuites'' \<longrightarrow> Element_find root ''testsuite'' = None"
  shows "parse_junit_xml fs p = (None, [])"
  using assms by (simp add: parse_junit_xml_def parse_junit_xml_try_def)

lemma parse_junit_xml_stdout: "stdout_lines (snd (parse_junit_xml fs p)) = []"
  by (simp add: parse_junit_xml_def split: sum.splits)

lemma parse_junit_xml_cong:
  "ET_parse fs' = ET_parse fs \<Longrightarrow> parse_junit_xml fs' p = parse_junit_xml fs p"
  by (simp add: parse_junit_xml_def parse_junit_xml_try_def)

lemma main_loop_cong:
  assumes "ET_parse fs' = ET_parse fs"
  shows "main_loop fs' ps = main_loop fs ps"
proof (induction ps)
  case Nil
  show ?case by simp
next
  case (Cons p ps)
  have "parse_junit_xml fs' p = parse_junit_xml fs p"
    using assms by (rule parse_junit_xml_cong)
  with Cons show ?case by simp
qed

lemma main_loop_step:
  "parse_junit_xml fs p = (Some d, []) \<Longrightarrow>
   main_loop fs (p # ps) = Stdout (csv_row d) # main_loop fs ps"
  by simp

lemma main_loop_stdout:
  "stdout_lines (main_loop fs ps) =
   List.map_filter (\<lambda>p. map_option csv_row (fst (parse_junit_xml fs p))) ps"
proof (induction ps)
  case Nil
  show ?case by simp
next
  case (Cons p ps)
  obtain data tr where pr: "parse_junit_xml fs p = (data, tr)"
    by (cases "parse_junit_xml fs p")
  have "stdout_lines tr = []"
    using parse_junit_xml_stdout [of fs p] pr by simp
  with Cons pr show ?case
    by (cases data) (simp_all add: stdout_lines_append)
qed

lemma map_filter_all_None: "\<forall>x\<in>set xs. f x = None \<Longrightarrow> List.map_filter f xs = []"
  by (induction xs) simp_all

lemma main_loop_all_fail:
  "\<forall>p\<in>set ps. fst (parse_junit_xml fs p) = None \<Longrightarrow> stdout_lines (main_loop fs ps) = []"
  by (simp add: main_loop_stdout map_filter_all_None)

lemma main_loop_diagnostic:
  "p \<in> set ps \<Longrightarrow> ET_parse fs p = Inl e \<Longrightarrow>
   Stderr (''Error parsing '' @ str_path p @ '': '' @ e) \<in> set (main_loop fs ps)"
proof (induction ps)
  case Nil
  then show ?case by simp
next
  case (Cons q qs)
  show ?case
  proof (cases "p = q")
    case True
    with Cons.prems show ?thesis
      by (simp add: parse_junit_xml_error)
  next
    case False
    with Cons have "Stderr (''Error parsing '' @ str_path p @ '': '' @ e) \<in> set (main_loop fs qs)"
      by simp
    then show ?thesis
      by (cases "parse_junit_xml fs q") simp
  qed
qed

lemma length_map_filter:
  "length (List.map_filter f xs) = length (filter (\<lambda>x. f x \<noteq> None) xs)"
  by (induction xs) (auto split: option.splits)

lemma length_filter_sort: "length (filter P (sort xs)) = length (filter P xs)"
proof -
  have "size (filter_mset P (mset (sort xs))) = size (filter_mset P (mset xs))"
    by simp
  then show ?thesis
    by (simp only: mset_filter [symmetric] size_mset)
qed

lemma sort_mset_cong: "mset xs = mset ys \<Longrightarrow> sort xs = sort ys"
  by (metis sorted_list_of_multiset_mset)

lemma append_le_append: "(xs :: 'a::linorder list) @ ys \<le> xs @ zs \<longleftrightarrow> ys \<le> zs"
  by (induction xs) simp_all

lemma join_sep_snoc:
  "join_sep (d @ [n]) = (if d = [] then n else join_sep d @ ''/'' @ n)"
  by (induction d rule: join_sep.induct) simp_all

lemma str_path_same_directory:
  "str_path (d @ [n]) \<le> str_path (d @ [m]) \<longleftrightarrow> d @ [n] \<le> d @ [m]"
proof -
  have "str_path (d @ [n]) \<le> str_path (d @ [m]) \<longleftrightarrow> n \<le> m"
    by (simp add: str_path_def join_sep_snoc append_le_append)
  also have "\<dots> \<longleftrightarrow> d @ [n] \<le> d @ [m]"
    by (auto simp add: append_le_append)
  finally show ?thesis .
qed

lemma sorted_str_path:
  assumes "sorted ps" and "\<forall>p\<in>set ps. \<exists>n. p = d @ [n]"
  shows "sorted (map str_path ps)"
  using assms
proof (induction ps)
  case Nil
  show ?case by simp
next
  case (Cons p ps)
  have "str_path p \<le> str_path q" if q: "q \<in> set ps" for q
  proof -
    obtain n where n: "p = d @ [n]"
      using Cons.prems(2) by auto
    obtain m where m: "q = d @ [m]"
      using Cons.prems(2) q by auto
    have "p \<le> q"
      using Cons.prems(1) q by simp
    then show ?thesis
      unfolding n m by (simp only: str_path_same_directory)
  qed
  with Cons show ?case by simp
qed

lemma find_xml_files_loop_returns:
  "\<forall>p\<in>set ps. \<exists>b. is_file fs p = Inr b \<Longrightarrow>
   find_xml_files_loop fs ps = Inr (filter (\<lambda>p. is_file fs p = Inr True) ps)"
  by (induction ps) auto

lemma find_xml_files_loop_raises:
  "find_xml_files_loop fs ps = Inl e \<Longrightarrow> \<exists>p\<in>set ps. is_file fs p = Inl e"
  by (induction ps) (auto split: sum.splits)

lemma find_xml_files_loop_Inr:
  "find_xml_files_loop fs ps = Inr xs \<Longrightarrow>
   xs = filter (\<lambda>p. is_file fs p = Inr True) ps \<and> (\<forall>p\<in>set ps. \<exists>b. is_file fs p = Inr b)"
  by (induction ps arbitrary: xs) (auto split: sum.splits)

lemma find_xml_files_loop_relisted:
  assumes "mset ps' = mset ps"
  shows "(\<forall>xs. find_xml_files_loop fs ps = Inr xs \<longrightarrow>
            (\<exists>xs'. find_xml_files_loop fs ps' = Inr xs' \<and> mset xs' = mset xs))
       \<and> (\<forall>e. find_xml_files_loop fs ps = Inl e \<longrightarrow> (\<exists>e'. find_xml_files_loop fs ps' = Inl e'))"
proof (intro conjI allI impI)
  fix xs
  assume r: "find_xml_files_loop fs ps = Inr xs"
  let ?keep = "\<lambda>p. is_file fs p = Inr True"
  have s: "set ps' = set ps"
    using assms by (rule mset_eq_setD)
  from r have xs: "xs = filter ?keep ps" and ok: "\<forall>p\<in>set ps. \<exists>b. is_file fs p = Inr b"
    using find_xml_files_loop_Inr by blast+
  from ok s have "find_xml_files_loop fs ps' = Inr (filter ?keep ps')"
    by (simp add: find_xml_files_loop_returns)
  moreover have "mset (filter ?keep ps') = mset xs"
    using assms by (simp only: xs mset_filter)
  ultimately show "\<exists>xs'. find_xml_files_loop fs ps' = Inr xs' \<and> mset xs' = mset xs"
    by blast
next
  fix e
  assume r: "find_xml_files_loop fs ps = Inl e"
  have s: "set ps' = set ps"
    using assms by (rule mset_eq_setD)
  show "\<exists>e'. find_xml_files_loop fs ps' = Inl e'"
  proof (cases "find_xml_files_loop fs ps'")
    case (Inl e')
    then show ?thesis by blast
  next
    case (Inr xs')
    then have "\<forall>p\<in>set ps'. \<exists>b. is_file fs p = Inr b"
      using find_xml_files_loop_Inr by blast
    with s have "find_xml_files_loop fs ps = Inr (filter (\<lambda>p. is_file fs p = Inr True) ps)"
      by (simp add: find_xml_files_loop_returns)
    with r show ?thesis by simp
  qed
qed

lemma find_xml_files_quiet:
  "fst (find_xml_files fs d) = Inr xs \<Longrightarrow> xs \<noteq> [] \<Longrightarrow> snd (find_xml_files fs d) = []"
  by (auto simp add: find_xml_files_def split: sum.splits if_splits)

lemma find_xml_files_raises_quiet:
  "fst (find_xml_files fs d) = Inl e \<Longrightarrow> snd (find_xml_files fs d) = []"
  by (auto simp add: find_xml_files_def split: sum.splits if_splits)


lemma main_some_files:
  assumes "length argv = 2"
    and "fst (find_xml_files fs (argv ! 1)) = Inr xml_files"
    and "xml_files \<noteq> []"
  shows "main fs argv =
    (Inr 0, Stdout ''TestSuite,Tests,Runtime'' # main_loop fs (sort xml_files))"
proof -
  have "snd (find_xml_files fs (argv ! 1)) = []"
    using assms(2,3) by (rule find_xml_files_quiet)
  with assms(2) have "find_xml_files fs (argv ! 1) = (Inr xml_files, [])"
    by (simp add: prod_eq_iff)
  with assms(1,3) show ?thesis
    by (simp add: main_def main_report_def)
qed

lemma junit_parser_some_files:
  assumes "length argv = 2"
    and "fst (find_xml_files fs (argv ! 1)) = Inr xml_files"
    and "xml_files \<noteq> []"
  shows "junit_parser fs argv =
    (0, Stdout ''TestSuite,Tests,Runtime'' # main_loop fs (sort xml_files))"
  by (simp add: junit_parser_def main_some_files [OF assms])


lemma main_raises:
  assumes "length argv = 2"
    and "fst (find_xml_files fs (argv ! 1)) = Inl e"
  shows "main fs argv = (Inl e, [])"
proof -
  have "snd (find_xml_files fs (argv ! 1)) = []"
    using assms(2) by (rule find_xml_files_raises_quiet)
  with assms(2) have "find_xml_files fs (argv ! 1) = (Inl e, [])"
    by (simp add: prod_eq_iff)
  with assms(1) show ?thesis
    by (simp add: main_def)
qed

lemma find_xml_files_relisted:
  assumes "path_exists fs' = path_exists fs" and "is_dir fs' = is_dir fs"
    and "is_file fs' = is_file fs"
    and "\<forall>d. map_sum id mset (glob_xml fs' d) = map_sum id mset (glob_xml fs d)"
  shows "snd (find_xml_files fs' d) = snd (find_xml_files fs d)
       \<and> (\<forall>xs. fst (find_xml_files fs d) = Inr xs \<longrightarrow>
            (\<exists>xs'. fst (find_xml_files fs' d) = Inr xs' \<and> mset xs' = mset xs))
       \<and> (\<forall>e. fst (find_xml_files fs d) = Inl e \<longrightarrow> (\<exists>e'. fst (find_xml_files fs' d) = Inl e'))"
proof -
  have loop: "find_xml_files_loop fs' ps = find_xml_files_loop fs ps" for ps
    by (induction ps) (simp_all add: assms(3) split: sum.splits)
  have g: "map_sum id mset (glob_xml fs' d) = map_sum id mset (glob_xml fs d)"
    using assms(4) by blast
  show ?thesis
  proof (cases "glob_xml fs d")
    case (Inl e)
    with g have "glob_xml fs' d = Inl e"
      by (cases "glob_xml fs' d") simp_all
    with Inl assms(1,2) show ?thesis
      by (simp add: find_xml_files_def split: sum.splits)
  next
    case (Inr ps)
    with g obtain ps' where ps': "glob_xml fs' d = Inr ps'" "mset ps' = mset ps"
      by (cases "glob_xml fs' d") simp_all
    note r = find_xml_files_loop_relisted [OF ps'(2), of fs]
    from Inr ps'(1) assms(1,2) r show ?thesis
      by (auto simp add: find_xml_files_def loop split: sum.splits)
  qed
qed

lemma main_loop_append: "main_loop fs (xs @ ys) = main_loop fs xs @ main_loop fs ys"
  by (induction xs) (simp_all split: prod.splits)

lemma main_loop_row:
  "parse_junit_xml fs p = (Some d, []) \<Longrightarrow>
   main_loop fs (pre @ p # post) = main_loop fs pre @ Stdout (csv_row d) # main_loop fs post"
  by (simp add: main_loop_append)

subsection \<open>The sample runs, evaluated\<close>

lemma demo_reports_files:
  "fst (find_xml_files demo_fs ''reports'') =
     Inr [[''reports'', ''b.xml''], [''reports'', ''bad.xml''], [''reports'', ''a.xml'']]"
  by (simp add: find_xml_files_def demo_fs_def)

lemma demo_broken_files:
  "fst (find_xml_files demo_fs ''broken'') =
     Inr [[''broken'', ''page.xml''], [''broken'', ''bad.xml'']]"
  by (simp add: find_xml_files_def demo_fs_def)




lemma demo_parse_a:
  "parse_junit_xml demo_fs [''reports'', ''a.xml''] =
     (Some \<lparr>name = ''Foo'', tests = ''12'', time = ''3.4''\<rparr>, [])"
  by (simp add: parse_junit_xml_def parse_junit_xml_try_def Element_get_def demo_fs_def)

lemma demo_parse_b:
  "parse_junit_xml demo_fs [''reports'', ''b.xml''] =
     (Some \<lparr>name = ''Bar'', tests = ''5'', time = ''1.0''\<rparr>, [])"
  by (simp add: parse_junit_xml_def parse_junit_xml_try_def Element_get_def Element_find_def
      demo_fs_def)

lemma demo_parse_bad:
  "parse_junit_xml demo_fs [''reports'', ''bad.xml''] =
     (None, [Stderr ''Error parsing reports/bad.xml: syntax error: line 1, column 0''])"
  by (simp add: parse_junit_xml_def parse_junit_xml_try_def str_path_def demo_fs_def)

lemma demo_parse_broken:
  "fst (parse_junit_xml demo_fs [''broken'', ''page.xml'']) = None"
  "fst (parse_junit_xml demo_fs [''broken'', ''bad.xml'']) = None"
  by (simp_all add: parse_junit_xml_def parse_junit_xml_try_def demo_fs_def)

lemma demo_sort_reports:
  "sort [[''reports'', ''b.xml''], [''reports'', ''bad.xml''], [''reports'', ''a.xml'']] =
     [[''reports'', ''a.xml''], [''reports'', ''b.xml''], [''reports'', ''bad.xml'']]"
  by simp

section \<open>The claims of the specification\<close>

subsection \<open>C1\<close>

text \<open>
  Claim C1. Let the program be run with one argument and let \<open>p\<close> be one of the files the
  scanner returns, at its place \<open>pre @ p # post\<close> in the sorted order. When the root of \<open>p\<close>
  is a \<open>testsuite\<close> element with the attributes \<open>name = Foo\<close>, \<open>tests = 12\<close>,
  \<open>time = 3.4\<close>, the extractor returns the record of these three values, the process ends
  with status 0, and it writes for \<open>p\<close> exactly the line \<^verbatim>\<open>Foo,12,3.4\<close> on the output
  stream: after the header and what the files before \<open>p\<close> gave, before what the files
  after \<open>p\<close> give. When the root of \<open>p\<close> is \<open>testsuites\<close> and its first child named
  \<open>testsuite\<close> has the attributes \<open>Bar\<close>, \<open>5\<close>, \<open>1.0\<close>, the line is \<^verbatim>\<open>Bar,5,1.0\<close>.
  The fields are joined by commas as they are. Other attributes and the children of the
  suite element play no part.
\<close>

theorem testsuite_csv_rows:
  assumes "length argv = 2"
    and "fst (find_xml_files fs (argv ! 1)) = Inr xml_files"
    and "sort xml_files = pre @ p # post"
  shows
  "(ET_parse fs p = Inr (Element ''testsuite'' a cs)
      \<and> a ''name'' = Some ''Foo'' \<and> a ''tests'' = Some ''12'' \<and> a ''time'' = Some ''3.4'' \<longrightarrow>
        parse_junit_xml fs p = (Some \<lparr>name = ''Foo'', tests = ''12'', time = ''3.4''\<rparr>, [])
        \<and> junit_parser fs argv =
            (0, Stdout ''TestSuite,Tests,Runtime'' #
                main_loop fs pre @ Stdout ''Foo,12,3.4'' # main_loop fs post)
        \<and> stdout_lines (snd (junit_parser fs argv)) =
            ''TestSuite,Tests,Runtime'' #
            List.map_filter (\<lambda>q. map_option csv_row (fst (parse_junit_xml fs q))) pre @
            ''Foo,12,3.4'' #
            List.map_filter (\<lambda>q. map_option csv_row (fst (parse_junit_xml fs q))) post)
   \<and> (ET_parse fs p = Inr (Element ''testsuites'' b (before @ Element ''testsuite'' a' cs' # after))
      \<and> (\<forall>c\<in>set before. tag c \<noteq> ''testsuite'')
      \<and> a' ''name'' = Some ''Bar'' \<and> a' ''tests'' = Some ''5'' \<and> a' ''time'' = Some ''1.0'' \<longrightarrow>
        parse_junit_xml fs p = (Some \<lparr>name = ''Bar'', tests = ''5'', time = ''1.0''\<rparr>, [])
        \<and> junit_parser fs argv =
            (0, Stdout ''TestSuite,Tests,Runtime'' #
                main_loop fs pre @ Stdout ''Bar,5,1.0'' # main_loop fs post)
        \<and> stdout_lines (snd (junit_parser fs argv)) =
            ''TestSuite,Tests,Runtime'' #
            List.map_filter (\<lambda>q. map_option csv_row (fst (parse_junit_xml fs q))) pre @
            ''Bar,5,1.0'' #
            List.map_filter (\<lambda>q. map_option csv_row (fst (parse_junit_xml fs q))) post)"
proof -
  have "sort xml_files \<noteq> []"
    using assms(3) by simp
  then have ne: "xml_files \<noteq> []"
    by auto
  have run: "junit_parser fs argv =
      (0, Stdout ''TestSuite,Tests,Runtime'' # main_loop fs (pre @ p # post))"
    using junit_parser_some_files [OF assms(1,2) ne] by (simp only: assms(3))
  have driver: "junit_parser fs argv =
            (0, Stdout ''TestSuite,Tests,Runtime'' #
                main_loop fs pre @ Stdout (csv_row d) # main_loop fs post)
        \<and> stdout_lines (snd (junit_parser fs argv)) =
            ''TestSuite,Tests,Runtime'' #
            List.map_filter (\<lambda>q. map_option csv_row (fst (parse_junit_xml fs q))) pre @
            csv_row d #
            List.map_filter (\<lambda>q. map_option csv_row (fst (parse_junit_xml fs q))) post"
    if "parse_junit_xml fs p = (Some d, [])" for d
    using that by (simp add: run main_loop_row stdout_lines_append main_loop_stdout)
  show ?thesis
  proof (intro conjI impI)
    assume h: "ET_parse fs p = Inr (Element ''testsuite'' a cs)
      \<and> a ''name'' = Some ''Foo'' \<and> a ''tests'' = Some ''12'' \<and> a ''time'' = Some ''3.4''"
    then show r: "parse_junit_xml fs p =
        (Some \<lparr>name = ''Foo'', tests = ''12'', time = ''3.4''\<rparr>, [])"
      using parse_junit_xml_suite [of fs p "Element ''testsuite'' a cs" "Element ''testsuite'' a cs"]
      by simp
    have c: "csv_row \<lparr>name = ''Foo'', tests = ''12'', time = ''3.4''\<rparr> = ''Foo,12,3.4''"
      by (simp add: csv_row_def)
    note d = driver [OF r, unfolded c]
    show "junit_parser fs argv =
            (0, Stdout ''TestSuite,Tests,Runtime'' #
                main_loop fs pre @ Stdout ''Foo,12,3.4'' # main_loop fs post)"
      by (rule d [THEN conjunct1])
    show "stdout_lines (snd (junit_parser fs argv)) =
            ''TestSuite,Tests,Runtime'' #
            List.map_filter (\<lambda>q. map_option csv_row (fst (parse_junit_xml fs q))) pre @
            ''Foo,12,3.4'' #
            List.map_filter (\<lambda>q. map_option csv_row (fst (parse_junit_xml fs q))) post"
      by (rule d [THEN conjunct2])
  next
    let ?ts = "Element ''testsuite'' a' cs'"
    let ?root = "Element ''testsuites'' b (before @ ?ts # after)"
    assume h: "ET_parse fs p = Inr ?root
      \<and> (\<forall>c\<in>set before. tag c \<noteq> ''testsuite'')
      \<and> a' ''name'' = Some ''Bar'' \<and> a' ''tests'' = Some ''5'' \<and> a' ''time'' = Some ''1.0''"
    then have "Element_find ?root ''testsuite'' = Some ?ts"
      by (simp add: Element_find_def find_first_match)
    with h show r: "parse_junit_xml fs p =
        (Some \<lparr>name = ''Bar'', tests = ''5'', time = ''1.0''\<rparr>, [])"
      using parse_junit_xml_suite [of fs p ?root ?ts] by simp
    have c: "csv_row \<lparr>name = ''Bar'', tests = ''5'', time = ''1.0''\<rparr> = ''Bar,5,1.0''"
      by (simp add: csv_row_def)
    note d = driver [OF r, unfolded c]
    show "junit_parser fs argv =
            (0, Stdout ''TestSuite,Tests,Runtime'' #
                main_loop fs pre @ Stdout ''Bar,5,1.0'' # main_loop fs post)"
      by (rule d [THEN conjunct1])
    show "stdout_lines (snd (junit_parser fs argv)) =
            ''TestSuite,Tests,Runtime'' #
            List.map_filter (\<lambda>q. map_option csv_row (fst (parse_junit_xml fs q))) pre @
            ''Bar,5,1.0'' #
            List.map_filter (\<lambda>q. map_option csv_row (fst (parse_junit_xml fs q))) post"
      by (rule d [THEN conjunct2])
  qed
qed

text \<open>The run on the sample directory \<open>reports\<close>, which holds both kinds of file.\<close>

theorem testsuite_csv_rows_witness:
  "stdout_lines (snd (junit_parser demo_fs [''junit_parser.py'', ''reports''])) =
     [''TestSuite,Tests,Runtime'', ''Foo,12,3.4'', ''Bar,5,1.0'']
   \<and> junit_parser demo_fs [''junit_parser.py'', ''reports''] =
     (0, [Stdout ''TestSuite,Tests,Runtime'', Stdout ''Foo,12,3.4'', Stdout ''Bar,5,1.0'',
          Stderr ''Error parsing reports/bad.xml: syntax error: line 1, column 0''])"
proof -
  let ?argv = "[''junit_parser.py'', ''reports'']"
  let ?pa = "[''reports'', ''a.xml'']"
  let ?pb = "[''reports'', ''b.xml'']"
  let ?bad = "[''reports'', ''bad.xml'']"
  let ?a = "[''name'' \<mapsto> ''Foo'', ''tests'' \<mapsto> ''12'', ''time'' \<mapsto> ''3.4'']"
  let ?b = "[''name'' \<mapsto> ''Bar'', ''tests'' \<mapsto> ''5'', ''time'' \<mapsto> ''1.0'']"
  have len: "length ?argv = 2"
    by simp
  have files: "fst (find_xml_files demo_fs (?argv ! 1)) = Inr [?pb, ?bad, ?pa]"
    by (simp add: demo_reports_files)
  have at_a: "sort [?pb, ?bad, ?pa] = [] @ ?pa # [?pb, ?bad]"
    by (simp add: demo_sort_reports)
  have at_b: "sort [?pb, ?bad, ?pa] = [?pa] @ ?pb # [?bad]"
    by (simp add: demo_sort_reports)
  have a: "ET_parse demo_fs ?pa = Inr (Element ''testsuite'' ?a [])
      \<and> ?a ''name'' = Some ''Foo'' \<and> ?a ''tests'' = Some ''12'' \<and> ?a ''time'' = Some ''3.4''"
    by (simp add: demo_fs_def)
  have b: "ET_parse demo_fs ?pb =
        Inr (Element ''testsuites'' Map.empty ([] @ Element ''testsuite'' ?b [] # []))
      \<and> (\<forall>c\<in>set []. tag c \<noteq> ''testsuite'')
      \<and> ?b ''name'' = Some ''Bar'' \<and> ?b ''tests'' = Some ''5'' \<and> ?b ''time'' = Some ''1.0''"
    by (simp add: demo_fs_def)
  have loop_bad: "main_loop demo_fs [?bad] =
      [Stderr ''Error parsing reports/bad.xml: syntax error: line 1, column 0'']"
    by (simp add: demo_parse_bad)
  have loop_a: "main_loop demo_fs [?pa] = [Stdout ''Foo,12,3.4'']"
    by (simp add: demo_parse_a csv_row_def)
  note ra = testsuite_csv_rows [OF len files at_a, where a = ?a and cs = "[]"]
  note rb = testsuite_csv_rows [OF len files at_b, where b = Map.empty and before = "[]"
      and a' = ?b and cs' = "[]" and after = "[]"]
  from rb b have "junit_parser demo_fs ?argv =
            (0, Stdout ''TestSuite,Tests,Runtime'' #
                main_loop demo_fs [?pa] @ Stdout ''Bar,5,1.0'' # main_loop demo_fs [?bad])"
    by blast
  then have run: "junit_parser demo_fs ?argv =
     (0, [Stdout ''TestSuite,Tests,Runtime'', Stdout ''Foo,12,3.4'', Stdout ''Bar,5,1.0'',
          Stderr ''Error parsing reports/bad.xml: syntax error: line 1, column 0''])"
    by (simp only: loop_a loop_bad append.simps)
  from ra a have "stdout_lines (snd (junit_parser demo_fs ?argv)) =
            ''TestSuite,Tests,Runtime'' #
            List.map_filter (\<lambda>q. map_option csv_row (fst (parse_junit_xml demo_fs q))) [] @
            ''Foo,12,3.4'' #
            List.map_filter (\<lambda>q. map_option csv_row (fst (parse_junit_xml demo_fs q))) [?pb, ?bad]"
    by blast
  then have "stdout_lines (snd (junit_parser demo_fs ?argv)) =
       [''TestSuite,Tests,Runtime'', ''Foo,12,3.4'', ''Bar,5,1.0'']"
    by (simp add: demo_parse_b demo_parse_bad csv_row_def)
  with run show ?thesis
    by (rule conjI [rotated])
qed

subsection \<open>C2\<close>

text \<open>
  Claim C2, as stated, does not hold: the search below a \<open>testsuites\<close> root visits the
  children of the root only. In the sample report \<open>nested.xml\<close> the first element named
  \<open>testsuite\<close> in document order below the root exists, one level further down, and the
  extractor returns no result instead of the record of that element.
\<close>

theorem descendant_testsuite_not_used:
  "ET_parse nested_fs [''reports'', ''nested.xml''] = Inr nested_root
   \<and> tag nested_root = ''testsuites''
   \<and> spec_find_descendant nested_root ''testsuite'' = Some nested_suite
   \<and> parse_junit_xml nested_fs [''reports'', ''nested.xml''] = (None, [])"
  by (simp add: nested_fs_def nested_root_def nested_suite_def spec_find_descendant_def
      parse_junit_xml_def parse_junit_xml_try_def Element_find_def)

text \<open>
  Claim C2, amended. For a file whose root tag is \<open>testsuites\<close>, the extractor takes the
  first child of the root named \<open>testsuite\<close>, in document order, as the suite element;
  when no child of the root has that name, the extraction yields no result and prints
  nothing.
\<close>

theorem testsuites_first_child:
  assumes "ET_parse fs p = Inr root" and "tag root = ''testsuites''"
  shows "((\<forall>c\<in>set (children root). tag c \<noteq> ''testsuite'') \<longrightarrow>
            parse_junit_xml fs p = (None, []))
       \<and> (children root = pre @ ts # post \<and> (\<forall>c\<in>set pre. tag c \<noteq> ''testsuite'')
            \<and> tag ts = ''testsuite'' \<longrightarrow>
          parse_junit_xml fs p =
            (Some \<lparr>name = (case attrib ts ''name'' of None \<Rightarrow> ''Unknown'' | Some v \<Rightarrow> v),
                   tests = (case attrib ts ''tests'' of None \<Rightarrow> ''0'' | Some v \<Rightarrow> v),
                   time = (case attrib ts ''time'' of None \<Rightarrow> ''0'' | Some v \<Rightarrow> v)\<rparr>, []))"
proof (intro conjI impI)
  assume "\<forall>c\<in>set (children root). tag c \<noteq> ''testsuite''"
  then have "Element_find root ''testsuite'' = None"
    by (simp add: Element_find_def find_no_match)
  with assms show "parse_junit_xml fs p = (None, [])"
    by (simp add: parse_junit_xml_no_suite)
next
  assume h: "children root = pre @ ts # post \<and> (\<forall>c\<in>set pre. tag c \<noteq> ''testsuite'')
            \<and> tag ts = ''testsuite''"
  then have "Element_find root ''testsuite'' = Some ts"
    by (simp add: Element_find_def find_first_match)
  with assms show "parse_junit_xml fs p =
            (Some \<lparr>name = (case attrib ts ''name'' of None \<Rightarrow> ''Unknown'' | Some v \<Rightarrow> v),
                   tests = (case attrib ts ''tests'' of None \<Rightarrow> ''0'' | Some v \<Rightarrow> v),
                   time = (case attrib ts ''time'' of None \<Rightarrow> ''0'' | Some v \<Rightarrow> v)\<rparr>, [])"
    by (simp add: parse_junit_xml_suite)
qed

text \<open>The nested report, and the report \<open>b.xml\<close> of the sample directory.\<close>

theorem testsuites_first_child_witness:
  "parse_junit_xml nested_fs [''reports'', ''nested.xml''] = (None, [])
   \<and> parse_junit_xml demo_fs [''reports'', ''b.xml''] =
       (Some \<lparr>name = ''Bar'', tests = ''5'', time = ''1.0''\<rparr>, [])"
proof -
  let ?ts = "Element ''testsuite''
      [''name'' \<mapsto> ''Bar'', ''tests'' \<mapsto> ''5'', ''time'' \<mapsto> ''1.0''] []"
  let ?root = "Element ''testsuites'' Map.empty [?ts]"
  have a: "ET_parse nested_fs [''reports'', ''nested.xml''] = Inr nested_root"
    by (simp add: nested_fs_def)
  have a': "tag nested_root = ''testsuites''"
    by (simp add: nested_root_def)
  have a'': "\<forall>c\<in>set (children nested_root). tag c \<noteq> ''testsuite''"
    by (simp add: nested_root_def)
  have b: "ET_parse demo_fs [''reports'', ''b.xml''] = Inr ?root"
    by (simp add: demo_fs_def)
  have b': "tag ?root = ''testsuites''"
    by simp
  have b'': "children ?root = [] @ ?ts # [] \<and> (\<forall>c\<in>set []. tag c \<noteq> ''testsuite'')
      \<and> tag ?ts = ''testsuite''"
    by simp
  show ?thesis
    using a'' b''
      testsuites_first_child [OF a a', of "[]" ?ts "[]"]
      testsuites_first_child [OF b b', of "[]" ?ts "[]"]
    by simp
qed

subsection \<open>C3\<close>




subsection \<open>C4\<close>

text \<open>
  Claim C4. Once the suite element \<open>ts\<close> is resolved (the root itself when its tag is
  \<open>testsuite\<close>, the element \<open>find\<close> returns when the tag is \<open>testsuites\<close>), the record
  returned holds the values of the attributes \<open>name\<close>, \<open>tests\<close> and \<open>time\<close> of \<open>ts\<close> as
  they are, with \<^verbatim>\<open>Unknown\<close>, \<^verbatim>\<open>0\<close> and \<^verbatim>\<open>0\<close> in place of an absent one. The record
  depends on nothing else, and nothing is printed.
\<close>

theorem suite_attributes_with_defaults:
  assumes "ET_parse fs p = Inr root"
    and "tag root = ''testsuite'' \<and> ts = root \<or>
         tag root = ''testsuites'' \<and> Element_find root ''testsuite'' = Some ts"
  shows "parse_junit_xml fs p =
    (Some \<lparr>name = (case attrib ts ''name'' of None \<Rightarrow> ''Unknown'' | Some v \<Rightarrow> v),
           tests = (case attrib ts ''tests'' of None \<Rightarrow> ''0'' | Some v \<Rightarrow> v),
           time = (case attrib ts ''time'' of None \<Rightarrow> ''0'' | Some v \<Rightarrow> v)\<rparr>, [])"
  using assms by (rule parse_junit_xml_suite)

text \<open>
  A suite with all three attributes, and one without \<open>name\<close> and \<open>time\<close> whose \<open>tests\<close>
  is not a number.
\<close>

theorem suite_attributes_with_defaults_witness:
  "parse_junit_xml demo_fs [''reports'', ''a.xml''] =
     (Some \<lparr>name = ''Foo'', tests = ''12'', time = ''3.4''\<rparr>, [])
   \<and> parse_junit_xml (demo_fs\<lparr>ET_parse := (\<lambda>p. Inr (Element ''testsuites'' Map.empty
          [Element ''properties'' Map.empty [],
           Element ''testsuite'' [''tests'' \<mapsto> ''seven'', ''errors'' \<mapsto> ''1''] []]))\<rparr>)
        [''reports'', ''a.xml''] =
     (Some \<lparr>name = ''Unknown'', tests = ''seven'', time = ''0''\<rparr>, [])"
proof -
  let ?a = "Element ''testsuite''
     [''name'' \<mapsto> ''Foo'', ''tests'' \<mapsto> ''12'', ''time'' \<mapsto> ''3.4''] []"
  let ?ts = "Element ''testsuite'' [''tests'' \<mapsto> ''seven'', ''errors'' \<mapsto> ''1''] []"
  let ?root = "Element ''testsuites'' Map.empty [Element ''properties'' Map.empty [], ?ts]"
  let ?fs = "demo_fs\<lparr>ET_parse := (\<lambda>p. Inr ?root)\<rparr>"
  have a: "ET_parse demo_fs [''reports'', ''a.xml''] = Inr ?a"
    by (simp add: demo_fs_def)
  have a': "tag ?a = ''testsuite'' \<and> ?a = ?a \<or>
            tag ?a = ''testsuites'' \<and> Element_find ?a ''testsuite'' = Some ?a"
    by simp
  have b: "ET_parse ?fs [''reports'', ''a.xml''] = Inr ?root"
    by simp
  have b': "tag ?root = ''testsuite'' \<and> ?ts = ?root \<or>
            tag ?root = ''testsuites'' \<and> Element_find ?root ''testsuite'' = Some ?ts"
    by (simp add: Element_find_def)
  show ?thesis
    using suite_attributes_with_defaults [OF a a'] suite_attributes_with_defaults [OF b b']
    by simp
qed

subsection \<open>C5\<close>

text \<open>
  Claim C5. \<open>parse_junit_xml\<close> always returns: its result has no exceptional outcome. When
  opening or parsing the file raises an exception with text \<open>e\<close>, the result is
  \<^verbatim>\<open>None\<close> and one line on the error stream that holds the path of the file and \<open>e\<close>. When
  the root tag is neither \<open>testsuite\<close> nor \<open>testsuites\<close>, the result is \<^verbatim>\<open>None\<close> and
  nothing is printed.
\<close>

theorem parse_failures_give_no_result:
  "(ET_parse fs p = Inl e \<longrightarrow>
      parse_junit_xml fs p = (None, [Stderr (''Error parsing '' @ str_path p @ '': '' @ e)]))
   \<and> (ET_parse fs p = Inr root \<and> tag root \<noteq> ''testsuite'' \<and> tag root \<noteq> ''testsuites'' \<longrightarrow>
      parse_junit_xml fs p = (None, []))"
  by (simp add: parse_junit_xml_error parse_junit_xml_no_suite)

text \<open>A file that is not XML, and a well-formed document with another root.\<close>

theorem parse_failures_give_no_result_witness:
  "parse_junit_xml demo_fs [''reports'', ''bad.xml''] =
     (None, [Stderr ''Error parsing reports/bad.xml: syntax error: line 1, column 0''])
   \<and> parse_junit_xml demo_fs [''broken'', ''page.xml''] = (None, [])"
proof -
  let ?root = "Element ''html'' Map.empty [Element ''body'' Map.empty []]"
  have a: "ET_parse demo_fs [''reports'', ''bad.xml''] = Inl ''syntax error: line 1, column 0''"
    by (simp add: demo_fs_def)
  have b: "ET_parse demo_fs [''broken'', ''page.xml''] = Inr ?root
           \<and> tag ?root \<noteq> ''testsuite'' \<and> tag ?root \<noteq> ''testsuites''"
    by (simp add: demo_fs_def)
  show ?thesis
    using a b
      parse_failures_give_no_result [of demo_fs "[''reports'', ''bad.xml'']"
        "''syntax error: line 1, column 0''" ?root]
      parse_failures_give_no_result [of demo_fs "[''broken'', ''page.xml'']"
        "''syntax error: line 1, column 0''" ?root]
    by (simp add: str_path_def)
qed

subsection \<open>C6\<close>

text \<open>
  Claim C6. Whenever \<open>find_xml_files\<close> returns at least one file, the exit status is 0, the
  output stream holds the header followed by the rows of exactly those files whose
  extraction yields a record, and every file whose parsing raised an exception contributes
  no row but a diagnostic with its path on the error stream. In particular, when the files
  are two that yield a record and one that is not XML, in any order, the output stream
  holds three lines, the header and two rows.
\<close>

theorem failed_files_are_skipped:
  assumes "length argv = 2"
    and "fst (find_xml_files fs (argv ! 1)) = Inr xml_files"
    and "xml_files \<noteq> []"
  shows "fst (junit_parser fs argv) = 0
     \<and> stdout_lines (snd (junit_parser fs argv)) =
         ''TestSuite,Tests,Runtime'' #
         List.map_filter (\<lambda>p. map_option csv_row (fst (parse_junit_xml fs p))) (sort xml_files)
     \<and> length (stdout_lines (snd (junit_parser fs argv))) =
         1 + length (filter (\<lambda>p. fst (parse_junit_xml fs p) \<noteq> None) xml_files)
     \<and> (\<forall>p\<in>set xml_files. \<forall>e. ET_parse fs p = Inl e \<longrightarrow>
           fst (parse_junit_xml fs p) = None
           \<and> Stderr (''Error parsing '' @ str_path p @ '': '' @ e) \<in> set (snd (junit_parser fs argv)))
     \<and> (mset xml_files = {#good1, good2, bad#}
         \<and> fst (parse_junit_xml fs good1) \<noteq> None \<and> fst (parse_junit_xml fs good2) \<noteq> None
         \<and> ET_parse fs bad = Inl err \<longrightarrow>
           length (stdout_lines (snd (junit_parser fs argv))) = 3
           \<and> Stderr (''Error parsing '' @ str_path bad @ '': '' @ err) \<in> set (snd (junit_parser fs argv)))"
proof -
  let ?ok = "\<lambda>p. fst (parse_junit_xml fs p) \<noteq> None"
  let ?diag = "\<lambda>p e. Stderr (''Error parsing '' @ str_path p @ '': '' @ e)"
  have run: "junit_parser fs argv =
      (0, Stdout ''TestSuite,Tests,Runtime'' # main_loop fs (sort xml_files))"
    using assms by (rule junit_parser_some_files)
  have status: "fst (junit_parser fs argv) = 0"
    by (simp add: run)
  have rows: "stdout_lines (snd (junit_parser fs argv)) =
         ''TestSuite,Tests,Runtime'' #
         List.map_filter (\<lambda>p. map_option csv_row (fst (parse_junit_xml fs p))) (sort xml_files)"
    by (simp add: run main_loop_stdout)
  have count: "length (stdout_lines (snd (junit_parser fs argv))) = 1 + length (filter ?ok xml_files)"
    by (simp add: rows length_map_filter length_filter_sort)
  have diag: "fst (parse_junit_xml fs p) = None \<and> ?diag p e \<in> set (snd (junit_parser fs argv))"
    if "p \<in> set xml_files" "ET_parse fs p = Inl e" for p e
  proof -
    have "p \<in> set (sort xml_files)"
      using that(1) by simp
    then have "?diag p e \<in> set (main_loop fs (sort xml_files))"
      using that(2) by (rule main_loop_diagnostic)
    then show ?thesis
      by (simp add: run parse_junit_xml_error [OF that(2)])
  qed
  have three: "length (stdout_lines (snd (junit_parser fs argv))) = 3
           \<and> ?diag bad err \<in> set (snd (junit_parser fs argv))"
    if h: "mset xml_files = {#good1, good2, bad#}
         \<and> ?ok good1 \<and> ?ok good2 \<and> ET_parse fs bad = Inl err"
  proof -
    have "bad \<in># mset xml_files"
      using h by simp
    then have mem: "bad \<in> set xml_files"
      by simp
    have nb: "\<not> ?ok bad"
      using h by (simp add: parse_junit_xml_error)
    have "length (filter ?ok xml_files) = size (filter_mset ?ok (mset xml_files))"
      by (simp only: mset_filter [symmetric] size_mset)
    also have "\<dots> = 2"
      using h nb by simp
    finally have "length (stdout_lines (snd (junit_parser fs argv))) = 3"
      by (simp add: count)
    moreover have "?diag bad err \<in> set (snd (junit_parser fs argv))"
      using diag [OF mem] h by simp
    ultimately show ?thesis by simp
  qed
  from status rows count diag three show ?thesis
    by blast
qed

text \<open>The sample directory \<open>reports\<close> is the scenario of the claim.\<close>

theorem failed_files_are_skipped_witness:
  "fst (junit_parser demo_fs [''junit_parser.py'', ''reports'']) = 0
   \<and> stdout_lines (snd (junit_parser demo_fs [''junit_parser.py'', ''reports''])) =
        [''TestSuite,Tests,Runtime'', ''Foo,12,3.4'', ''Bar,5,1.0'']
   \<and> length (stdout_lines (snd (junit_parser demo_fs [''junit_parser.py'', ''reports'']))) = 3
   \<and> Stderr ''Error parsing reports/bad.xml: syntax error: line 1, column 0''
        \<in> set (snd (junit_parser demo_fs [''junit_parser.py'', ''reports'']))"
proof -
  let ?argv = "[''junit_parser.py'', ''reports'']"
  let ?a = "[''reports'', ''a.xml'']"
  let ?b = "[''reports'', ''b.xml'']"
  let ?bad = "[''reports'', ''bad.xml'']"
  let ?err = "''syntax error: line 1, column 0''"
  have len: "length ?argv = 2"
    by simp
  have files: "fst (find_xml_files demo_fs (?argv ! 1)) = Inr [?b, ?bad, ?a]"
    by (simp add: demo_reports_files)
  have ne: "[?b, ?bad, ?a] \<noteq> []"
    by simp
  have bad: "ET_parse demo_fs ?bad = Inl ?err"
    by (simp add: demo_fs_def)
  have scen: "mset [?b, ?bad, ?a] = {#?a, ?b, ?bad#}
      \<and> fst (parse_junit_xml demo_fs ?a) \<noteq> None \<and> fst (parse_junit_xml demo_fs ?b) \<noteq> None
      \<and> ET_parse demo_fs ?bad = Inl ?err"
    by (simp add: demo_parse_a demo_parse_b bad)
  have rows: "List.map_filter (\<lambda>p. map_option csv_row (fst (parse_junit_xml demo_fs p)))
       (sort [?b, ?bad, ?a]) = [''Foo,12,3.4'', ''Bar,5,1.0'']"
    by (simp add: demo_sort_reports demo_parse_a demo_parse_b demo_parse_bad csv_row_def)
  have diag: "''Error parsing '' @ str_path ?bad @ '': '' @ ?err =
      ''Error parsing reports/bad.xml: syntax error: line 1, column 0''"
    by (simp add: str_path_def)
  note r = failed_files_are_skipped [OF len files ne, of ?a ?b ?bad ?err]
  from r have "fst (junit_parser demo_fs ?argv) = 0"
    by (rule conjunct1)
  moreover from r have "stdout_lines (snd (junit_parser demo_fs ?argv)) =
        [''TestSuite,Tests,Runtime'', ''Foo,12,3.4'', ''Bar,5,1.0'']"
    by (simp only: rows)
  moreover from r scen have "length (stdout_lines (snd (junit_parser demo_fs ?argv))) = 3
     \<and> Stderr (''Error parsing '' @ str_path ?bad @ '': '' @ ?err) \<in> set (snd (junit_parser demo_fs ?argv))"
    by blast
  ultimately show ?thesis
    by (simp only: diag) 
qed

subsection \<open>C7\<close>

text \<open>
  Claim C7. The rows on the output stream are those of the files in ascending order of
  their paths, files without a record left out. The order of paths is the lexicographic
  one on their components; for files of one directory \<open>dir\<close> it is also the lexicographic
  order of the path strings. Had \<open>find_xml_files\<close> returned the same files in another
  order \<open>ys\<close>, the run from there on would have been the same, event by event.
\<close>

theorem rows_in_path_order:
  assumes "length argv = 2"
    and "fst (find_xml_files fs (argv ! 1)) = Inr xml_files"
    and "xml_files \<noteq> []"
  shows "stdout_lines (snd (junit_parser fs argv)) =
           ''TestSuite,Tests,Runtime'' #
           List.map_filter (\<lambda>p. map_option csv_row (fst (parse_junit_xml fs p))) (sort xml_files)
       \<and> sorted (sort xml_files) \<and> mset (sort xml_files) = mset xml_files
       \<and> ((\<forall>p\<in>set xml_files. \<exists>n. p = dir @ [n]) \<longrightarrow> sorted (map str_path (sort xml_files)))
       \<and> (mset ys = mset xml_files \<longrightarrow>
            main_report fs (argv ! 1) ys = main_report fs (argv ! 1) xml_files
            \<and> snd (junit_parser fs argv) = snd (main_report fs (argv ! 1) ys))"
proof -
  have run: "junit_parser fs argv =
      (0, Stdout ''TestSuite,Tests,Runtime'' # main_loop fs (sort xml_files))"
    using assms by (rule junit_parser_some_files)
  have rows: "stdout_lines (snd (junit_parser fs argv)) =
           ''TestSuite,Tests,Runtime'' #
           List.map_filter (\<lambda>p. map_option csv_row (fst (parse_junit_xml fs p))) (sort xml_files)"
    by (simp add: run main_loop_stdout)
  have strs: "sorted (map str_path (sort xml_files))"
    if "\<forall>p\<in>set xml_files. \<exists>n. p = dir @ [n]"
  proof (rule sorted_str_path)
    show "sorted (sort xml_files)" by simp
    show "\<forall>p\<in>set (sort xml_files). \<exists>n. p = dir @ [n]"
      using that by simp
  qed
  have perm: "main_report fs (argv ! 1) ys = main_report fs (argv ! 1) xml_files
            \<and> snd (junit_parser fs argv) = snd (main_report fs (argv ! 1) ys)"
    if m: "mset ys = mset xml_files"
  proof -
    have "sort ys = sort xml_files"
      using m by (rule sort_mset_cong)
    moreover have "ys \<noteq> []"
      using m assms(3) by auto
    ultimately show ?thesis
      using assms(3) by (simp add: main_report_def run)
  qed
  from rows strs perm show ?thesis
    by simp
qed

text \<open>
  The sample directory, listed as \<open>b\<close>, \<open>bad\<close>, \<open>a\<close> and processed as \<open>a\<close>, \<open>b\<close>,
  \<open>bad\<close>.
\<close>

theorem rows_in_path_order_witness:
  "stdout_lines (snd (junit_parser demo_fs [''junit_parser.py'', ''reports''])) =
      [''TestSuite,Tests,Runtime'', ''Foo,12,3.4'', ''Bar,5,1.0'']
   \<and> map str_path (sort [[''reports'', ''b.xml''], [''reports'', ''bad.xml''], [''reports'', ''a.xml'']])
       = [''reports/a.xml'', ''reports/b.xml'', ''reports/bad.xml'']
   \<and> sorted [''reports/a.xml'', ''reports/b.xml'', ''reports/bad.xml'']
   \<and> snd (junit_parser demo_fs [''junit_parser.py'', ''reports'']) =
       snd (main_report demo_fs ''reports''
         [[''reports'', ''bad.xml''], [''reports'', ''a.xml''], [''reports'', ''b.xml'']])"
proof -
  let ?argv = "[''junit_parser.py'', ''reports'']"
  let ?a = "[''reports'', ''a.xml'']"
  let ?b = "[''reports'', ''b.xml'']"
  let ?bad = "[''reports'', ''bad.xml'']"
  have len: "length ?argv = 2"
    by simp
  have files: "fst (find_xml_files demo_fs (?argv ! 1)) = Inr [?b, ?bad, ?a]"
    by (simp add: demo_reports_files)
  have ne: "[?b, ?bad, ?a] \<noteq> []"
    by simp
  have dir: "\<forall>p\<in>set [?b, ?bad, ?a]. \<exists>n. p = [''reports''] @ [n]"
    by simp
  have perm: "mset [?bad, ?a, ?b] = mset [?b, ?bad, ?a]"
    by simp
  have rows: "List.map_filter (\<lambda>p. map_option csv_row (fst (parse_junit_xml demo_fs p)))
       (sort [?b, ?bad, ?a]) = [''Foo,12,3.4'', ''Bar,5,1.0'']"
    by (simp add: demo_sort_reports demo_parse_a demo_parse_b demo_parse_bad csv_row_def)
  have strs: "map str_path (sort [?b, ?bad, ?a]) =
      [''reports/a.xml'', ''reports/b.xml'', ''reports/bad.xml'']"
    by (simp add: demo_sort_reports str_path_def)
  note r = rows_in_path_order [OF len files ne, of "[''reports'']" "[?bad, ?a, ?b]"]
  from r have "stdout_lines (snd (junit_parser demo_fs ?argv)) =
      [''TestSuite,Tests,Runtime'', ''Foo,12,3.4'', ''Bar,5,1.0'']"
    by (simp only: rows)
  moreover from r dir have "sorted (map str_path (sort [?b, ?bad, ?a]))"
    by blast
  then have "sorted [''reports/a.xml'', ''reports/b.xml'', ''reports/bad.xml'']"
    by (simp only: strs)
  moreover from r perm have "snd (junit_parser demo_fs ?argv) =
      snd (main_report demo_fs (?argv ! 1) [?bad, ?a, ?b])"
    by blast
  then have "snd (junit_parser demo_fs ?argv) = snd (main_report demo_fs ''reports'' [?bad, ?a, ?b])"
    by simp
  ultimately show ?thesis
    using strs by blast
qed

subsection \<open>C8\<close>




subsection \<open>C9\<close>

text \<open>
  Claim C9. Two runs with the same arguments on the same directory contents write the same
  bytes to the output stream: when two file systems agree on everything the program asks of
  them, and list the same files for each directory, be it in different orders, the exit
  status and the bytes on the output stream are equal. Unless the run ends in an uncaught
  exception, the whole trace is equal as well; when it does, the output stream is empty in
  both runs and only the exception reported may differ, since the first \<open>is_file\<close> that
  raises depends on the order of the listing.
\<close>

theorem output_independent_of_listing_order:
  assumes "path_exists fs' = path_exists fs" and "is_dir fs' = is_dir fs"
    and "is_file fs' = is_file fs" and "ET_parse fs' = ET_parse fs"
    and "\<forall>d. map_sum id mset (glob_xml fs' d) = map_sum id mset (glob_xml fs d)"
  shows "fst (junit_parser fs' argv) = fst (junit_parser fs argv)
       \<and> stdout_text (snd (junit_parser fs' argv)) = stdout_text (snd (junit_parser fs argv))
       \<and> ((\<forall>e. fst (main fs argv) \<noteq> Inl e) \<longrightarrow>
            main fs' argv = main fs argv \<and> junit_parser fs' argv = junit_parser fs argv)"
proof (cases "length argv = 2")
  case False
  then have "main fs' argv = main fs argv"
    by (simp add: main_def)
  then show ?thesis
    by (simp add: junit_parser_def)
next
  case len: True
  let ?d = "argv ! 1"
  note rel = find_xml_files_relisted [OF assms(1-3) assms(5), of ?d]
  show ?thesis
  proof (cases "fst (find_xml_files fs ?d)")
    case (Inl e)
    with rel obtain e' where e': "fst (find_xml_files fs' ?d) = Inl e'"
      by blast
    have "main fs argv = (Inl e, [])" and "main fs' argv = (Inl e', [])"
      using len Inl e' by (simp_all add: main_raises)
    then show ?thesis
      by (simp add: junit_parser_def stdout_text_def)
  next
    case (Inr xs)
    with rel obtain xs' where xs': "fst (find_xml_files fs' ?d) = Inr xs'" "mset xs' = mset xs"
      by blast
    have t: "snd (find_xml_files fs' ?d) = snd (find_xml_files fs ?d)"
      using rel by blast
    have s: "sort xs' = sort xs"
      using xs'(2) by (rule sort_mset_cong)
    have e: "xs' = [] \<longleftrightarrow> xs = []"
      using xs'(2) by (metis mset_zero_iff)
    obtain tr where f: "find_xml_files fs ?d = (Inr xs, tr)"
      using Inr by (cases "find_xml_files fs ?d") simp
    have f': "find_xml_files fs' ?d = (Inr xs', tr)"
      using xs'(1) t f by (simp add: prod_eq_iff)
    have "main_report fs' ?d xs' = main_report fs ?d xs"
      by (simp add: main_report_def s e main_loop_cong [OF assms(4)])
    then have "main fs' argv = main fs argv"
      using len f f' by (simp add: main_def)
    then show ?thesis
      by (simp add: junit_parser_def)
  qed
qed

text \<open>The sample file system and its relisted copy, whose listings differ.\<close>

theorem output_independent_of_listing_order_witness:
  "glob_xml demo_fs_relisted ''reports'' \<noteq> glob_xml demo_fs ''reports''
   \<and> junit_parser demo_fs_relisted [''junit_parser.py'', ''reports''] =
       junit_parser demo_fs [''junit_parser.py'', ''reports'']
   \<and> stdout_text (snd (junit_parser demo_fs_relisted [''junit_parser.py'', ''reports''])) =
       stdout_text (snd (junit_parser demo_fs [''junit_parser.py'', ''reports'']))"
proof -
  let ?argv = "[''junit_parser.py'', ''reports'']"
  have a: "path_exists demo_fs_relisted = path_exists demo_fs"
    and b: "is_dir demo_fs_relisted = is_dir demo_fs"
    and c: "is_file demo_fs_relisted = is_file demo_fs"
    and d: "ET_parse demo_fs_relisted = ET_parse demo_fs"
    by (simp_all add: demo_fs_relisted_def)
  have e: "\<forall>d. map_sum id mset (glob_xml demo_fs_relisted d) = map_sum id mset (glob_xml demo_fs d)"
    by (simp add: demo_fs_relisted_def demo_fs_def)
  have f: "glob_xml demo_fs_relisted ''reports'' \<noteq> glob_xml demo_fs ''reports''"
    by (simp add: demo_fs_relisted_def demo_fs_def)
  have "main demo_fs ?argv =
      (Inr 0, Stdout ''TestSuite,Tests,Runtime'' #
         main_loop demo_fs (sort [[''reports'', ''b.xml''], [''reports'', ''bad.xml''],
                                  [''reports'', ''a.xml'']]))"
    by (rule main_some_files) (simp_all add: demo_reports_files)
  then have g: "\<forall>e. fst (main demo_fs ?argv) \<noteq> Inl e"
    by simp
  show ?thesis
    using f g output_independent_of_listing_order [OF a b c d e, of ?argv]
    by blast
qed

subsection \<open>C10\<close>

text \<open>
  Claim C10. Whenever \<open>find_xml_files\<close> returns at least one file, \<open>main\<close> returns
  normally, the header line is the first event of the run, and everything the loop over
  the files does comes after it. Hence, when no file yields a record, the output stream
  holds the header line and nothing else, and the exit status is 0.
\<close>

theorem header_before_extraction:
  assumes "length argv = 2"
    and "fst (find_xml_files fs (argv ! 1)) = Inr xml_files"
    and "xml_files \<noteq> []"
  shows "main fs argv = (Inr 0, Stdout ''TestSuite,Tests,Runtime'' # main_loop fs (sort xml_files))
       \<and> junit_parser fs argv = (0, Stdout ''TestSuite,Tests,Runtime'' # main_loop fs (sort xml_files))
       \<and> ((\<forall>p\<in>set xml_files. fst (parse_junit_xml fs p) = None) \<longrightarrow>
            stdout_lines (snd (junit_parser fs argv)) = [''TestSuite,Tests,Runtime'']
            \<and> stdout_text (snd (junit_parser fs argv)) = ''TestSuite,Tests,Runtime'' @ [CHR 0x0A]
            \<and> fst (junit_parser fs argv) = 0)"
proof -
  have run: "junit_parser fs argv =
      (0, Stdout ''TestSuite,Tests,Runtime'' # main_loop fs (sort xml_files))"
    using assms by (rule junit_parser_some_files)
  have "stdout_lines (snd (junit_parser fs argv)) = [''TestSuite,Tests,Runtime'']"
    if "\<forall>p\<in>set xml_files. fst (parse_junit_xml fs p) = None"
  proof -
    have "\<forall>p\<in>set (sort xml_files). fst (parse_junit_xml fs p) = None"
      using that by simp
    then have "stdout_lines (main_loop fs (sort xml_files)) = []"
      by (rule main_loop_all_fail)
    then show ?thesis
      by (simp add: run)
  qed
  then show ?thesis
    by (simp add: run main_some_files [OF assms] stdout_text_def)
qed

text \<open>The sample directory \<open>broken\<close>: both files fail, one of them with a diagnostic.\<close>

theorem header_before_extraction_witness:
  "junit_parser demo_fs [''junit_parser.py'', ''broken''] =
     (0, [Stdout ''TestSuite,Tests,Runtime'',
          Stderr ''Error parsing broken/bad.xml: syntax error: line 1, column 0''])
   \<and> stdout_text (snd (junit_parser demo_fs [''junit_parser.py'', ''broken''])) =
       ''TestSuite,Tests,Runtime'' @ [CHR 0x0A]"
proof -
  let ?argv = "[''junit_parser.py'', ''broken'']"
  let ?files = "[[''broken'', ''page.xml''], [''broken'', ''bad.xml'']]"
  have len: "length ?argv = 2"
    by simp
  have files: "fst (find_xml_files demo_fs (?argv ! 1)) = Inr ?files"
    by (simp add: demo_broken_files)
  have ne: "?files \<noteq> []"
    by simp
  have fail: "\<forall>p\<in>set ?files. fst (parse_junit_xml demo_fs p) = None"
    by (simp add: demo_parse_broken)
  have loop: "main_loop demo_fs (sort ?files) =
      [Stderr ''Error parsing broken/bad.xml: syntax error: line 1, column 0'']"
    by (simp add: parse_junit_xml_def parse_junit_xml_try_def str_path_def demo_fs_def)
  note r = header_before_extraction [OF len files ne]
  from r have "junit_parser demo_fs ?argv =
     (0, [Stdout ''TestSuite,Tests,Runtime'',
          Stderr ''Error parsing broken/bad.xml: syntax error: line 1, column 0''])"
    by (simp only: loop)
  moreover from r fail have "stdout_text (snd (junit_parser demo_fs ?argv)) =
       ''TestSuite,Tests,Runtime'' @ [CHR 0x0A]"
    by blast
  ultimately show ?thesis
    by (rule conjI)
qed

end
